theory Spec2Isabelle
  imports Main "HOL-Library.Word"
begin

unbundle bit_operations_syntax

section \<open>The Go library functions that \<open>monitors.go\<close> calls\<close>

subsection \<open>strconv: NumError, ParseUint and ParseInt\<close>

text \<open>
  \<open>NoDataTimeframe.UnmarshalJSON\<close> delegates to \<open>strconv.ParseInt(s, 10, 32)\<close> of the Go
  standard library. The library's \<open>atoi.go\<close> is embedded here at the arguments the
  program passes: base 10 (so \<open>base0\<close> is false and no prefix or underscore handling
  applies) and bitSize 32. A Go string is a sequence of bytes: \<open>string\<close> with \<open>byte\<close>
  reading a character as a \<open>uint8\<close>. \<open>uint64\<close> and \<open>int64\<close> are \<open>64 word\<close>.
\<close>

datatype strconv_err = ErrSyntax | ErrRange

record NumError =
  Func :: string
  Num :: string
  Err :: strconv_err

definition syntaxError :: "string \<Rightarrow> string \<Rightarrow> NumError" where
  "syntaxError fn str = \<lparr>Func = fn, Num = str, Err = ErrSyntax\<rparr>"

definition rangeError :: "string \<Rightarrow> string \<Rightarrow> NumError" where
  "rangeError fn str = \<lparr>Func = fn, Num = str, Err = ErrRange\<rparr>"

definition byte :: "char \<Rightarrow> 8 word" where
  "byte c = of_char c"

text \<open>\<open>lower(c)\<close> is \<open>c | ('x' - 'X')\<close>.\<close>

definition lower :: "8 word \<Rightarrow> 8 word" where
  "lower c = c OR (byte CHR ''x'' - byte CHR ''X'')"

definition maxUint64 :: "64 word" where
  "maxUint64 = push_bit 64 1 - 1"

definition base :: "64 word" where
  "base = 10"

definition bitSize :: nat where
  "bitSize = 32"

text \<open>
  The body of the \<open>for _, c := range []byte(s)\<close> loop of \<open>ParseUint\<close>, with \<open>n\<close> the
  accumulator. The result is the pair \<open>(n, err)\<close> the loop leaves: the value with no
  error at the end of the string; \<open>0\<close> with \<open>ErrSyntax\<close> at a byte that is no digit
  of the base; \<open>maxVal\<close> with \<open>ErrRange\<close> where \<open>n * base\<close> or \<open>n + d\<close> overflows.
  (Early releases of the library return \<open>1<<64 - 1\<close> in place of \<open>maxVal\<close> there;
  \<open>ParseInt\<close> turns both into the same range error.)
\<close>

fun parse_loop :: "64 word \<Rightarrow> string \<Rightarrow> 64 word \<times> strconv_err option" where
  "parse_loop n [] = (n, None)"
| "parse_loop n (ch # cs) =
    (let c = byte ch;
         cutoff = maxUint64 div base + 1;
         maxVal = push_bit bitSize 1 - 1 in
     if byte CHR ''0'' \<le> c \<and> c \<le> byte CHR ''9'' \<or>
        byte CHR ''a'' \<le> lower c \<and> lower c \<le> byte CHR ''z''
     then
       let d = (if byte CHR ''0'' \<le> c \<and> c \<le> byte CHR ''9'' then c - byte CHR ''0''
                else lower c - byte CHR ''a'' + 10) in
       if d \<ge> ucast base then (0, Some ErrSyntax)
       else if n \<ge> cutoff then (maxVal, Some ErrRange)
       else
         let n' = n * base;
             n1 = n' + ucast d in
         if n1 < n' \<or> n1 > maxVal then (maxVal, Some ErrRange)
         else parse_loop n1 cs
     else (0, Some ErrSyntax))"

definition ParseUint :: "string \<Rightarrow> 64 word \<times> NumError option" where
  "ParseUint s =
    (if s = [] then (0, Some (syntaxError ''ParseUint'' s))
     else case parse_loop 0 s of
            (n, None) \<Rightarrow> (n, None)
          | (n, Some e) \<Rightarrow> (n, Some \<lparr>Func = ''ParseUint'', Num = s, Err = e\<rparr>))"

text \<open>
  \<open>ParseInt\<close>: the sign is picked off, the rest goes to \<open>ParseUint\<close>; an error of
  \<open>ParseUint\<close> other than \<open>ErrRange\<close> is returned with \<open>Func\<close> and \<open>Num\<close> rewritten
  to \<open>ParseInt\<close> and the whole input \<open>s0\<close>; then the value is checked against
  \<open>cutoff = 1 << (bitSize - 1)\<close>.
\<close>

definition ParseInt :: "string \<Rightarrow> 64 word \<times> NumError option" where
  "ParseInt s0 =
    (case s0 of
       [] \<Rightarrow> (0, Some (syntaxError ''ParseInt'' s0))
     | c0 # rest \<Rightarrow>
        (let neg = (c0 = CHR ''-'');
             s = (if c0 = CHR ''+'' then rest else if c0 = CHR ''-'' then rest else s0);
             (un, err) = ParseUint s in
         if err \<noteq> None \<and> Err (the err) \<noteq> ErrRange
         then (0, Some ((the err)\<lparr>Func := ''ParseInt'', Num := s0\<rparr>))
         else
           let cutoff = push_bit (bitSize - 1) (1 :: 64 word) in
           if \<not> neg \<and> un \<ge> cutoff then (cutoff - 1, Some (rangeError ''ParseInt'' s0))
           else if neg \<and> un > cutoff then (- cutoff, Some (rangeError ''ParseInt'' s0))
           else (if neg then - un else un, None)))"

section \<open>monitors.go\<close>

subsection \<open>NoDataTimeframe and its decoder\<close>

text \<open>
  \<open>type NoDataTimeframe int\<close>: Go's \<open>int\<close>, here 64 bits wide, so that the conversion
  \<open>NoDataTimeframe(i)\<close> of the \<open>int64\<close> is the identity. Where \<open>int\<close> has 32 bits
  the conversion keeps the low 32 bits, which loses nothing: every value that
  \<open>ParseInt\<close> returns without an error at bitSize 32 lies in the 32-bit signed range
  (lemma \<open>decode_success\<close> below).

  \<open>UnmarshalJSON\<close> has a pointer receiver and returns an \<open>error\<close>. The model takes the
  value stored in the receiver before the call and returns the value stored after it,
  with the returned error (\<open>None\<close> for \<open>nil\<close>).
\<close>

type_synonym NoDataTimeframe = "64 word"

definition UnmarshalJSON :: "NoDataTimeframe \<Rightarrow> string \<Rightarrow> NoDataTimeframe \<times> NumError option" where
  "UnmarshalJSON tf data =
    (let s = data in
     if s = ''false'' \<or> s = ''null'' then (0, None)
     else
       case ParseInt s of
         (i, Some err) \<Rightarrow> (tf, Some err)
       | (i, None) \<Rightarrow> (i, None))"

text \<open>
  The same method on a program state, where what it reads and writes is explicit. The
  receiver \<open>tf\<close> is the address of a \<open>NoDataTimeframe\<close> variable (a valid pointer, as
  \<open>encoding/json\<close> passes it); \<open>timeframes\<close> gives the value stored at each such
  address, and \<open>others\<close> is all the rest of the state: package-level variables and the
  rest of the heap. The assignment \<open>*tf = v\<close> updates the cell at \<open>tf\<close>; the method
  returns the state it leaves and the error.
\<close>

record 'g memory =
  timeframes :: "nat \<Rightarrow> NoDataTimeframe"
  others :: 'g

definition UnmarshalJSON_at ::
  "nat \<Rightarrow> string \<Rightarrow> 'g memory \<Rightarrow> 'g memory \<times> NumError option" where
  "UnmarshalJSON_at tf data \<sigma> =
    (let s = data in
     if s = ''false'' \<or> s = ''null'' then (\<sigma>\<lparr>timeframes := (timeframes \<sigma>)(tf := 0)\<rparr>, None)
     else
       case ParseInt s of
         (i, Some err) \<Rightarrow> (\<sigma>, Some err)
       | (i, None) \<Rightarrow> (\<sigma>\<lparr>timeframes := (timeframes \<sigma>)(tf := i)\<rparr>, None))"

subsection \<open>strconv.FormatInt at base 10, strings.Join\<close>

text \<open>
  The decimal text of an integer, as \<open>strconv.FormatInt(n, 10)\<close> writes it: what
  \<open>encoding/json\<close> emits for a value of an integer kind that has no \<open>MarshalJSON\<close>
  of its own (\<open>NoDataTimeframe\<close> has none), and what \<open>fmt.Sprintf\<close> prints for
  \<open>%d\<close>.
\<close>

definition digit_char :: "nat \<Rightarrow> char" where
  "digit_char d = ''0123456789'' ! d"

fun digits :: "nat \<Rightarrow> string" where
  "digits n = (if n < 10 then [digit_char n] else digits (n div 10) @ [digit_char (n mod 10)])"

definition itoa :: "int \<Rightarrow> string" where
  "itoa n = (if n < 0 then CHR ''-'' # digits (nat (- n)) else digits (nat n))"

fun Join :: "string list \<Rightarrow> string \<Rightarrow> string" where
  "Join [] sep = []"
| "Join [x] sep = x"
| "Join (x # xs) sep = x @ sep @ Join xs sep"

subsection \<open>The monitor records\<close>

text \<open>
  A Go pointer field is an \<open>option\<close> (\<open>None\<close> for \<open>nil\<close>); \<open>json.Number\<close> is a
  string type; a slice that may be \<open>nil\<close> is a list \<open>option\<close> where the difference
  is observable (the result of the \<open>GetMonitors\<close> family) and a list otherwise.
\<close>

record ThresholdCount =
  Ok :: "string option"
  Critical :: "string option"
  Warning :: "string option"
  CriticalRecovery :: "string option"
  WarningRecovery :: "string option"

record Options =
  NoDataTimeframe :: NoDataTimeframe
  NotifyAudit :: "bool option"
  NotifyNoData :: "bool option"
  RenotifyInterval :: "64 word option"
  NewHostDelay :: "64 word option"
  EvaluationDelay :: "64 word option"
  Silenced :: "string \<rightharpoonup> 64 word"
  TimeoutH :: "64 word option"
  EscalationMessage :: "string option"
  Thresholds :: "ThresholdCount option"
  IncludeTags :: "bool option"
  RequireFullWindow :: "bool option"
  Locked :: "bool option"

record Creator =
  Email :: "string option"
  Handle :: "string option"
  ID :: "64 word option"
  Name :: "string option"

record Monitor =
  Creator :: "Creator option"
  ID :: "64 word option"
  Type :: "string option"
  Query :: "string option"
  Name :: "string option"
  Message :: "string option"
  Tags :: "string list"
  Options :: "Options option"

text \<open>\<open>var out Monitor\<close>: the zero value.\<close>

definition zero_Monitor :: Monitor where
  "zero_Monitor =
    \<lparr>Creator = None, ID = None, Type = None, Query = None, Name = None, Message = None,
     Tags = [], Options = None\<rparr>"

subsection \<open>The client methods\<close>

text \<open>
  \<open>Client.doJSONRequest(method, api, reqbody, out)\<close> is the transport, defined in another
  file of the package; it is a parameter of the model. It is called with three kinds of
  \<open>out\<close> argument, a \<open>*Monitor\<close>, a \<open>*[]Monitor\<close> and \<open>nil\<close>, so the parameter has one
  component for each: the component takes the value \<open>out\<close> points to before the call and
  returns the value it points to afterwards. The transport talks to a server, so it also
  takes and returns a state \<open>'w\<close> of everything outside the method (the server, the
  connection, the client's own fields). \<open>'e\<close> is the type of Go \<open>error\<close> values.
\<close>

record ('w, 'e) Client =
  doJSONRequest_Monitor ::
    "string \<Rightarrow> string \<Rightarrow> Monitor option \<Rightarrow> Monitor \<Rightarrow> 'w \<Rightarrow> ('e option \<times> Monitor) \<times> 'w"
  doJSONRequest_Monitors ::
    "string \<Rightarrow> string \<Rightarrow> Monitor option \<Rightarrow> Monitor list option \<Rightarrow> 'w
      \<Rightarrow> ('e option \<times> Monitor list option) \<times> 'w"
  doJSONRequest_nil ::
    "string \<Rightarrow> string \<Rightarrow> Monitor option \<Rightarrow> 'w \<Rightarrow> 'e option \<times> 'w"

text \<open>
  \<open>url.ParseQuery\<close> and \<open>url.Values.Encode\<close> of the Go standard library are parameters
  as well: \<open>'q\<close> is the type of \<open>url.Values\<close>, and \<open>ParseQuery\<close> returns either an
  error or the parsed values.
\<close>

record ('e, 'q) net_url =
  ParseQuery :: "string \<Rightarrow> 'e + 'q"
  Encode :: "'q \<Rightarrow> string"

definition CreateMonitor ::
  "('w, 'e) Client \<Rightarrow> Monitor option \<Rightarrow> 'w \<Rightarrow> (Monitor option \<times> 'e option) \<times> 'w" where
  "CreateMonitor client monitor w =
    (let out = zero_Monitor;
         ((err, out'), w') = doJSONRequest_Monitor client ''POST'' ''/v1/monitor'' monitor out w in
     if err \<noteq> None then ((None, err), w') else ((Some out', None), w'))"

text \<open>
  \<open>UpdateMonitor\<close> dereferences \<open>monitor\<close> and \<open>monitor.ID\<close> while it builds the path:
  on a \<open>nil\<close> pointer the method panics before any request is made (\<open>None\<close>).
\<close>

definition UpdateMonitor ::
  "('w, 'e) Client \<Rightarrow> Monitor option \<Rightarrow> 'w \<Rightarrow> ('e option \<times> 'w) option" where
  "UpdateMonitor client monitor w =
    (case monitor of
       None \<Rightarrow> None
     | Some m \<Rightarrow>
        (case Monitor.ID m of
           None \<Rightarrow> None
         | Some i \<Rightarrow>
            Some (doJSONRequest_nil client ''PUT'' (''/v1/monitor/'' @ itoa (sint i)) monitor w)))"

definition GetMonitor ::
  "('w, 'e) Client \<Rightarrow> 64 word \<Rightarrow> 'w \<Rightarrow> (Monitor option \<times> 'e option) \<times> 'w" where
  "GetMonitor client i w =
    (let out = zero_Monitor;
         ((err, out'), w') =
            doJSONRequest_Monitor client ''GET'' (''/v1/monitor/'' @ itoa (sint i)) None out w in
     if err \<noteq> None then ((None, err), w') else ((Some out', None), w'))"

definition GetMonitorsByName ::
  "('w, 'e) Client \<Rightarrow> ('e, 'q) net_url \<Rightarrow> string \<Rightarrow> 'w
    \<Rightarrow> (Monitor list option \<times> 'e option) \<times> 'w" where
  "GetMonitorsByName client url name w =
    (let out = None in
     case ParseQuery url (''name='' @ name) of
       Inl err \<Rightarrow> ((None, Some err), w)
     | Inr query \<Rightarrow>
        (let ((err, out'), w') =
           doJSONRequest_Monitors client ''GET'' (''/v1/monitor?'' @ Encode url query) None out w in
         if err \<noteq> None then ((None, err), w') else ((out', None), w')))"

definition GetMonitorsByTags ::
  "('w, 'e) Client \<Rightarrow> ('e, 'q) net_url \<Rightarrow> string list \<Rightarrow> 'w
    \<Rightarrow> (Monitor list option \<times> 'e option) \<times> 'w" where
  "GetMonitorsByTags client url tags w =
    (let out = None in
     case ParseQuery url (''monitor_tags='' @ Join tags '','') of
       Inl err \<Rightarrow> ((None, Some err), w)
     | Inr query \<Rightarrow>
        (let ((err, out'), w') =
           doJSONRequest_Monitors client ''GET'' (''/v1/monitor?'' @ Encode url query) None out w in
         if err \<noteq> None then ((None, err), w') else ((out', None), w')))"

definition DeleteMonitor :: "('w, 'e) Client \<Rightarrow> 64 word \<Rightarrow> 'w \<Rightarrow> 'e option \<times> 'w" where
  "DeleteMonitor client i w =
    doJSONRequest_nil client ''DELETE'' (''/v1/monitor/'' @ itoa (sint i)) None w"

definition GetMonitors ::
  "('w, 'e) Client \<Rightarrow> 'w \<Rightarrow> (Monitor list option \<times> 'e option) \<times> 'w" where
  "GetMonitors client w =
    (let out = None;
         ((err, out'), w') = doJSONRequest_Monitors client ''GET'' ''/v1/monitor'' None out w in
     if err \<noteq> None then ((None, err), w') else ((out', None), w'))"

definition MuteMonitors :: "('w, 'e) Client \<Rightarrow> 'w \<Rightarrow> 'e option \<times> 'w" where
  "MuteMonitors client w = doJSONRequest_nil client ''POST'' ''/v1/monitor/mute_all'' None w"

definition UnmuteMonitors :: "('w, 'e) Client \<Rightarrow> 'w \<Rightarrow> 'e option \<times> 'w" where
  "UnmuteMonitors client w = doJSONRequest_nil client ''POST'' ''/v1/monitor/unmute_all'' None w"

definition MuteMonitor :: "('w, 'e) Client \<Rightarrow> 64 word \<Rightarrow> 'w \<Rightarrow> 'e option \<times> 'w" where
  "MuteMonitor client i w =
    doJSONRequest_nil client ''POST'' (''/v1/monitor/'' @ itoa (sint i) @ ''/mute'') None w"

definition UnmuteMonitor :: "('w, 'e) Client \<Rightarrow> 64 word \<Rightarrow> 'w \<Rightarrow> 'e option \<times> 'w" where
  "UnmuteMonitor client i w =
    doJSONRequest_nil client ''POST'' (''/v1/monitor/'' @ itoa (sint i) @ ''/unmute'') None w"

subsection \<open>Stand-ins for the parameters\<close>

text \<open>
  Concrete values of the parameters, at which the theorems about the client methods are
  instantiated. The outside state is the number of requests made so far.
  \<open>failing_client\<close> fails every request with the error \<open>503\<close>; \<open>null_client\<close>
  succeeds on every request and writes nothing through \<open>out\<close>, as the transport does
  when the server answers \<open>null\<close>. \<open>url_stub\<close> refuses the query text \<open>name=%zz\<close>, as
  \<open>url.ParseQuery\<close> does (an invalid URL escape), and passes any other text through.
\<close>

definition failing_client :: "(nat, string) Client" where
  "failing_client =
    \<lparr>doJSONRequest_Monitor = (\<lambda>method api reqbody out w. ((Some ''503'', out), Suc w)),
     doJSONRequest_Monitors = (\<lambda>method api reqbody out w. ((Some ''503'', out), Suc w)),
     doJSONRequest_nil = (\<lambda>method api reqbody w. (Some ''503'', Suc w))\<rparr>"

definition null_client :: "(nat, string) Client" where
  "null_client =
    \<lparr>doJSONRequest_Monitor = (\<lambda>method api reqbody out w. ((None, out), Suc w)),
     doJSONRequest_Monitors = (\<lambda>method api reqbody out w. ((None, out), Suc w)),
     doJSONRequest_nil = (\<lambda>method api reqbody w. (None, Suc w))\<rparr>"

definition url_stub :: "(string, string) net_url" where
  "url_stub =
    \<lparr>ParseQuery = (\<lambda>q. if q = ''name=%zz'' then Inl ''invalid URL escape'' else Inr q),
     Encode = (\<lambda>v. v)\<rparr>"

section \<open>Decimal integer literals\<close>

text \<open>
  The vocabulary of the specification, defined on the text alone and independently of the
  parser: an ASCII digit; the number a digit string denotes; an integer literal, which
  is an optional sign (\<open>+\<close> or \<open>-\<close>) followed by one or more digits; the integer it
  denotes; the 32-bit signed range; a token wrapped in double quotes.
\<close>

definition is_digit :: "char \<Rightarrow> bool" where
  "is_digit c = (c \<in> set ''0123456789'')"

definition digit_val :: "char \<Rightarrow> nat" where
  "digit_val c = of_char c - 48"

fun dec_val :: "nat \<Rightarrow> string \<Rightarrow> nat" where
  "dec_val a [] = a"
| "dec_val a (c # cs) = dec_val (a * 10 + digit_val c) cs"

definition unsigned_part :: "string \<Rightarrow> string" where
  "unsigned_part s =
    (case s of [] \<Rightarrow> [] | c # r \<Rightarrow> if c = CHR ''+'' \<or> c = CHR ''-'' then r else s)"

definition negative :: "string \<Rightarrow> bool" where
  "negative s = (case s of [] \<Rightarrow> False | c # r \<Rightarrow> c = CHR ''-'')"

definition int_literal :: "string \<Rightarrow> bool" where
  "int_literal s = (unsigned_part s \<noteq> [] \<and> list_all is_digit (unsigned_part s))"

definition literal_value :: "string \<Rightarrow> int" where
  "literal_value s =
    (if negative s then - int (dec_val 0 (unsigned_part s)) else int (dec_val 0 (unsigned_part s)))"

definition in_int32 :: "int \<Rightarrow> bool" where
  "in_int32 v = (- (2 ^ 31) \<le> v \<and> v < 2 ^ 31)"

definition parseable_int32 :: "string \<Rightarrow> bool" where
  "parseable_int32 s = (int_literal s \<and> in_int32 (literal_value s))"

text \<open>
  The specification's pure function from the raw token text to an integer result or an
  error: 0 for \<open>false\<close> and \<open>null\<close>, the value of a parseable integer, and otherwise an
  error that carries the text. The kind of the error is read off the text as well: a
  range error for an integer literal (whose value is then outside the range) and for a
  token whose digits before the first other byte already exceed 32 bits, a syntax error
  for every other token.
\<close>

definition refusal_kind :: "string \<Rightarrow> strconv_err" where
  "refusal_kind s =
    (if int_literal s \<or> 2 ^ 32 \<le> dec_val 0 (takeWhile is_digit (unsigned_part s))
     then ErrRange else ErrSyntax)"

definition decode_token :: "string \<Rightarrow> NumError + NoDataTimeframe" where
  "decode_token s =
    (if s = ''false'' \<or> s = ''null'' then Inr 0
     else if parseable_int32 s then Inr (word_of_int (literal_value s))
     else Inl \<lparr>Func = ''ParseInt'', Num = s, Err = refusal_kind s\<rparr>)"

definition quoted :: "string \<Rightarrow> string" where
  "quoted s = CHR 0x22 # s @ [CHR 0x22]"

section \<open>The parser on digits and on other bytes\<close>

lemma unat_byte: "unat (byte c) = of_char c"
proof -
  have "byte c = of_nat (of_char c)" by (simp only: byte_def of_nat_of_char)
  moreover have "(of_char c :: nat) < 256" by simp
  ultimately show ?thesis by (simp add: unat_of_nat)
qed

lemma digits_upt: "\<forall>k \<in> set [48 ..< 58]. is_digit (char_of (k::nat))"
  by code_simp

lemma is_digit_code: "is_digit c \<longleftrightarrow> 48 \<le> (of_char c :: nat) \<and> (of_char c :: nat) \<le> 57"
proof
  assume "is_digit c"
  then show "48 \<le> (of_char c :: nat) \<and> (of_char c :: nat) \<le> 57"
    by (auto simp: is_digit_def)
next
  assume r: "48 \<le> (of_char c :: nat) \<and> (of_char c :: nat) \<le> 57"
  then have "(of_char c :: nat) \<in> {48 ..< 58}" by simp
  then have "(of_char c :: nat) \<in> set [48 ..< 58]" by (simp only: set_upt)
  with digits_upt have "is_digit (char_of (of_char c :: nat))" by blast
  then show "is_digit c" by simp
qed

lemma unat_byte_0_9: "unat (byte CHR ''0'') = 48" "unat (byte CHR ''9'') = 57"
  by (simp_all add: unat_byte)

lemma unat_digit:
  "48 \<le> unat (byte ch) \<Longrightarrow> unat (byte ch) \<le> 57 \<Longrightarrow>
   unat (byte ch - byte CHR ''0'') = digit_val ch"
  by (simp add: unat_sub word_le_nat_alt unat_byte_0_9 digit_val_def unat_byte)

lemma digit_below_base: "unat d < 10 \<Longrightarrow> \<not> (d::8 word) \<ge> ucast base"
  by (simp add: word_le_nat_alt base_def)

lemma below_cutoff: "unat n < 2 ^ 32 \<Longrightarrow> \<not> n \<ge> maxUint64 div base + 1"
  by (simp add: word_le_nat_alt maxUint64_def base_def)

lemma unat_times_base:
  assumes n: "unat (n::64 word) < 2 ^ 32"
  shows "unat (n * base) = unat n * 10"
proof -
  have "unat n * unat base < 2 ^ LENGTH(64)" using n by (simp add: base_def)
  then have "unat (n * base) = unat n * unat base" by (simp only: unat_mult_lem)
  then show ?thesis by (simp add: base_def)
qed

lemma unat_ucast_byte: "unat (ucast (d::8 word) :: 64 word) = unat d"
proof -
  have "unat d < 2 ^ LENGTH(8)" by (rule unsigned_less)
  then have "unat d < 2 ^ 64" by simp
  then show ?thesis by (simp add: unsigned_ucast_eq take_bit_nat_eq_self_iff)
qed

lemma unat_accumulate:
  assumes n: "unat (n::64 word) < 2 ^ 32" and d: "unat (d::8 word) < 10"
  shows "unat (n * base + ucast d) = unat n * 10 + unat d"
proof -
  have "unat (n * base) + unat (ucast d :: 64 word) < 2 ^ LENGTH(64)"
    using n d by (simp add: unat_times_base unat_ucast_byte)
  then have "unat (n * base + ucast d) = unat (n * base) + unat (ucast d :: 64 word)"
    by (simp only: unat_add_lem)
  then show ?thesis using n by (simp add: unat_times_base unat_ucast_byte)
qed

lemma maxVal_32: "(push_bit bitSize 1 - 1 :: 64 word) = 2 ^ 32 - 1"
  by (simp add: bitSize_def)

lemma unat_maxVal_32: "unat (2 ^ 32 - 1 :: 64 word) = 2 ^ 32 - 1"
  by simp

text \<open>One turn of the loop at a digit: the accumulator grows, or the value has left 32 bits.\<close>

lemma digit_step:
  assumes dg: "is_digit ch" and n: "unat n < 2 ^ 32"
  shows "parse_loop n (ch # cs) =
    (if unat n * 10 + digit_val ch < 2 ^ 32
     then parse_loop (of_nat (unat n * 10 + digit_val ch)) cs
     else (2 ^ 32 - 1, Some ErrRange))"
proof -
  define d where "d = byte ch - byte CHR ''0''"
  define n1 where "n1 = n * base + ucast d"
  from dg have r: "48 \<le> unat (byte ch)" "unat (byte ch) \<le> 57"
    by (simp_all add: is_digit_code unat_byte)
  have isd: "byte CHR ''0'' \<le> byte ch \<and> byte ch \<le> byte CHR ''9''"
    using r by (simp add: word_le_nat_alt unat_byte_0_9)
  have d: "unat d = digit_val ch"
    unfolding d_def using r by (rule unat_digit)
  have dlt: "unat d < 10"
    using r by (simp add: d digit_val_def unat_byte)
  have nob: "\<not> d \<ge> ucast base"
    using dlt by (rule digit_below_base)
  have noc: "\<not> n \<ge> maxUint64 div base + 1"
    using n by (rule below_cutoff)
  have a: "unat n1 = unat n * 10 + digit_val ch"
    unfolding n1_def using unat_accumulate [OF n dlt] by (simp add: d)
  have eq: "n1 = of_nat (unat n * 10 + digit_val ch)"
    by (simp flip: a)
  have nless: "\<not> n1 < n * base"
    by (simp add: word_less_nat_alt a unat_times_base [OF n])
  have gt: "n1 > push_bit bitSize 1 - 1 \<longleftrightarrow> \<not> unat n * 10 + digit_val ch < 2 ^ 32"
    unfolding maxVal_32 word_less_nat_alt unat_maxVal_32 a by auto
  have "parse_loop n (ch # cs) =
     (if n1 < n * base \<or> n1 > push_bit bitSize 1 - 1 then (push_bit bitSize 1 - 1, Some ErrRange)
      else parse_loop n1 cs)"
    using isd nob noc by (simp add: Let_def d_def [symmetric] n1_def [symmetric])
  also have "\<dots> = (if unat n * 10 + digit_val ch < 2 ^ 32
     then parse_loop (of_nat (unat n * 10 + digit_val ch)) cs
     else (2 ^ 32 - 1, Some ErrRange))"
  proof (cases "unat n * 10 + digit_val ch < 2 ^ 32")
    case True
    with gt nless have "\<not> (n1 < n * base \<or> n1 > push_bit bitSize 1 - 1)" by blast
    then show ?thesis using True by (simp only: if_False if_True eq)
  next
    case False
    with gt have "n1 < n * base \<or> n1 > push_bit bitSize 1 - 1" by blast
    then show ?thesis using False by (simp only: if_False if_True maxVal_32)
  qed
  finally show ?thesis .
qed

text \<open>
  A letter passes the first test of the loop, but its digit value is 10 or more, which
  base 10 refuses.
\<close>

lemma letter_digit_ge:
  assumes "byte CHR ''a'' \<le> l" "l \<le> byte CHR ''z''"
  shows "ucast base \<le> l - byte CHR ''a'' + 10"
proof -
  have a: "byte CHR ''a'' = 97" and z: "byte CHR ''z'' = 122" and b: "(ucast base :: 8 word) = 10"
    by (simp_all add: byte_def base_def)
  from assms have "(97 :: 8 word) \<le> l" "l \<le> 122" by (simp_all add: a z)
  then have "(10 :: 8 word) \<le> l - 97 + 10" by unat_arith
  then show ?thesis by (simp only: a b)
qed

lemma nondigit_step:
  assumes nd: "\<not> is_digit ch"
  shows "parse_loop n (ch # cs) = (0, Some ErrSyntax)"
proof -
  have nod: "(byte CHR ''0'' \<le> byte ch \<and> byte ch \<le> byte CHR ''9'') = False"
    using nd by (simp add: is_digit_code word_le_nat_alt unat_byte_0_9 unat_byte)
  show ?thesis
  proof (cases "byte CHR ''a'' \<le> lower (byte ch) \<and> lower (byte ch) \<le> byte CHR ''z''")
    case True
    then have ge: "(ucast base \<le> lower (byte ch) - byte CHR ''a'' + 10) = True"
      by (simp add: letter_digit_ge)
    from True
    have lt: "(byte CHR ''a'' \<le> lower (byte ch) \<and> lower (byte ch) \<le> byte CHR ''z'') = True"
      by simp
    show ?thesis by (simp add: Let_def nod lt ge)
  next
    case False
    then
    have lf: "(byte CHR ''a'' \<le> lower (byte ch) \<and> lower (byte ch) \<le> byte CHR ''z'') = False"
      by simp
    show ?thesis by (simp add: Let_def nod lf)
  qed
qed

declare parse_loop.simps(2) [simp del]

lemma dec_val_ge: "a \<le> dec_val a ds"
proof (induction ds arbitrary: a)
  case Nil
  show ?case by simp
next
  case (Cons c cs)
  have "a \<le> a * 10 + digit_val c" by simp
  also have "\<dots> \<le> dec_val (a * 10 + digit_val c) cs" by (rule Cons.IH)
  finally show ?case by simp
qed

lemma unat_of_nat_small: "m < 2 ^ 32 \<Longrightarrow> unat (of_nat m :: 64 word) = m"
  by (simp add: unat_of_nat)

text \<open>The whole loop on a digit string, from an accumulator that fits 32 bits.\<close>

lemma loop_digits:
  "list_all is_digit ds \<Longrightarrow> unat n < 2 ^ 32 \<Longrightarrow>
   parse_loop n ds =
     (if dec_val (unat n) ds < 2 ^ 32 then (of_nat (dec_val (unat n) ds), None)
      else (2 ^ 32 - 1, Some ErrRange))"
proof (induction ds arbitrary: n)
  case Nil
  then show ?case by simp
next
  case (Cons ch cs)
  define m where "m = unat n * 10 + digit_val ch"
  from Cons.prems have dg: "is_digit ch" and rest: "list_all is_digit cs" by simp_all
  have step: "parse_loop n (ch # cs) =
     (if m < 2 ^ 32 then parse_loop (of_nat m) cs else (2 ^ 32 - 1, Some ErrRange))"
    unfolding m_def using dg Cons.prems(2) by (rule digit_step)
  have dv: "dec_val (unat n) (ch # cs) = dec_val m cs" by (simp add: m_def)
  show ?case
  proof (cases "m < 2 ^ 32")
    case True
    then have u: "unat (of_nat m :: 64 word) = m" by (rule unat_of_nat_small)
    with True have "unat (of_nat m :: 64 word) < 2 ^ 32" by simp
    from Cons.IH [OF rest this] show ?thesis
      unfolding step dv u using True by simp
  next
    case False
    moreover have "m \<le> dec_val m cs" by (rule dec_val_ge)
    ultimately have "\<not> dec_val m cs < 2 ^ 32" by simp
    with False show ?thesis unfolding step dv by simp
  qed
qed

text \<open>The loop on a string with a byte that is no digit: one of the two errors.\<close>

lemma loop_fail:
  "\<not> list_all is_digit s \<Longrightarrow> unat n < 2 ^ 32 \<Longrightarrow>
   parse_loop n s = (0, Some ErrSyntax) \<or> parse_loop n s = (2 ^ 32 - 1, Some ErrRange)"
proof (induction s arbitrary: n)
  case Nil
  then show ?case by simp
next
  case (Cons ch cs)
  show ?case
  proof (cases "is_digit ch")
    case False
    then show ?thesis by (simp add: nondigit_step)
  next
    case True
    define m where "m = unat n * 10 + digit_val ch"
    have step: "parse_loop n (ch # cs) =
       (if m < 2 ^ 32 then parse_loop (of_nat m) cs else (2 ^ 32 - 1, Some ErrRange))"
      unfolding m_def using True Cons.prems(2) by (rule digit_step)
    from True Cons.prems(1) have rest: "\<not> list_all is_digit cs" by simp
    show ?thesis
    proof (cases "m < 2 ^ 32")
      case True
      then have "unat (of_nat m :: 64 word) < 2 ^ 32" by (simp add: unat_of_nat_small)
      from Cons.IH [OF rest this] show ?thesis unfolding step using True by simp
    next
      case False
      then show ?thesis unfolding step by simp
    qed
  qed
qed

text \<open>Which of the two errors it is, from the digits read before the first other byte.\<close>

lemma loop_error_kind:
  "\<not> list_all is_digit s \<Longrightarrow> unat n < 2 ^ 32 \<Longrightarrow>
   parse_loop n s =
     (if dec_val (unat n) (takeWhile is_digit s) < 2 ^ 32 then (0, Some ErrSyntax)
      else (2 ^ 32 - 1, Some ErrRange))"
proof (induction s arbitrary: n)
  case Nil
  then show ?case by simp
next
  case (Cons ch cs)
  show ?case
  proof (cases "is_digit ch")
    case False
    with Cons.prems(2) show ?thesis by (simp add: nondigit_step)
  next
    case True
    define m where "m = unat n * 10 + digit_val ch"
    have step: "parse_loop n (ch # cs) =
       (if m < 2 ^ 32 then parse_loop (of_nat m) cs else (2 ^ 32 - 1, Some ErrRange))"
      unfolding m_def using True Cons.prems(2) by (rule digit_step)
    have tw: "dec_val (unat n) (takeWhile is_digit (ch # cs)) = dec_val m (takeWhile is_digit cs)"
      using True by (simp add: m_def)
    from True Cons.prems(1) have rest: "\<not> list_all is_digit cs" by simp
    show ?thesis
    proof (cases "m < 2 ^ 32")
      case small: True
      then have u: "unat (of_nat m :: 64 word) = m" by (rule unat_of_nat_small)
      with small have "unat (of_nat m :: 64 word) < 2 ^ 32" by simp
      from Cons.IH [OF rest this] show ?thesis
        unfolding step tw u using small by simp
    next
      case False
      moreover have "m \<le> dec_val m (takeWhile is_digit cs)" by (rule dec_val_ge)
      ultimately have "\<not> dec_val m (takeWhile is_digit cs) < 2 ^ 32" by simp
      with False show ?thesis unfolding step tw by simp
    qed
  qed
qed

section \<open>ParseUint and ParseInt on literals and on other text\<close>

lemma ParseUint_ok:
  assumes "u \<noteq> []" "list_all is_digit u" "dec_val 0 u < 2 ^ 32"
  shows "ParseUint u = (of_nat (dec_val 0 u), None)"
proof -
  have "unat (0 :: 64 word) < 2 ^ 32" by simp
  from loop_digits [OF assms(2) this] assms show ?thesis
    by (simp add: ParseUint_def)
qed

lemma ParseUint_range:
  assumes "u \<noteq> []" "list_all is_digit u" "\<not> dec_val 0 u < 2 ^ 32"
  shows "ParseUint u = (2 ^ 32 - 1, Some (rangeError ''ParseUint'' u))"
proof -
  have "unat (0 :: 64 word) < 2 ^ 32" by simp
  from loop_digits [OF assms(2) this] assms show ?thesis
    by (simp add: ParseUint_def rangeError_def)
qed

lemma ParseUint_bad:
  assumes "u = [] \<or> \<not> list_all is_digit u"
  shows "ParseUint u = (0, Some (syntaxError ''ParseUint'' u)) \<or>
         ParseUint u = (2 ^ 32 - 1, Some (rangeError ''ParseUint'' u))"
proof (cases "u = []")
  case True
  then show ?thesis by (simp add: ParseUint_def)
next
  case False
  with assms have nd: "\<not> list_all is_digit u" by simp
  have "unat (0 :: 64 word) < 2 ^ 32" by simp
  from loop_fail [OF nd this] False show ?thesis
    by (auto simp add: ParseUint_def rangeError_def syntaxError_def)
qed

text \<open>\<open>ParseInt\<close> with the sign handling named and the constants evaluated.\<close>

lemma ParseInt_alt:
  "ParseInt s0 =
    (if s0 = [] then (0, Some (syntaxError ''ParseInt'' s0))
     else case ParseUint (unsigned_part s0) of
       (un, err) \<Rightarrow>
         if err \<noteq> None \<and> Err (the err) \<noteq> ErrRange
         then (0, Some ((the err)\<lparr>Func := ''ParseInt'', Num := s0\<rparr>))
         else if \<not> negative s0 \<and> un \<ge> 2 ^ 31 then (2 ^ 31 - 1, Some (rangeError ''ParseInt'' s0))
         else if negative s0 \<and> un > 2 ^ 31 then (- (2 ^ 31), Some (rangeError ''ParseInt'' s0))
         else (if negative s0 then - un else un, None))"
  by (cases s0) (simp_all add: ParseInt_def unsigned_part_def negative_def Let_def bitSize_def
      split: prod.splits)

lemma int_literal_nonempty: "int_literal s \<Longrightarrow> s \<noteq> []"
  by (auto simp: int_literal_def unsigned_part_def)

lemma word_cmp:
  assumes "v < 4294967296"
  shows "(2147483648 \<le> (of_nat v :: 64 word)) = (2147483648 \<le> v)"
    and "(2147483648 < (of_nat v :: 64 word)) = (2147483648 < v)"
  using assms by (simp_all add: word_le_nat_alt word_less_nat_alt unat_of_nat_small)

lemma ParseInt_ok:
  assumes lit: "int_literal s" and rng: "in_int32 (literal_value s)"
  shows "ParseInt s = (word_of_int (literal_value s), None)"
proof -
  define u where "u = unsigned_part s"
  define v where "v = dec_val 0 u"
  from lit have ne: "s \<noteq> []" by (rule int_literal_nonempty)
  from lit have une: "u \<noteq> []" and dg: "list_all is_digit u"
    by (simp_all add: int_literal_def u_def)
  from rng have small: "v < 2 ^ 32"
    by (simp add: in_int32_def literal_value_def u_def v_def split: if_splits)
  have pu: "ParseUint u = (of_nat v, None)"
    using ParseUint_ok [OF une dg] small by (simp add: u_def v_def)
  show ?thesis
  proof (cases "negative s")
    case True
    with rng have "v \<le> 2 ^ 31" by (simp add: in_int32_def literal_value_def u_def v_def)
    then have "\<not> 2 ^ 31 < v" by simp
    with True ne small show ?thesis
      by (simp add: ParseInt_alt u_def [symmetric] pu word_cmp literal_value_def v_def [symmetric])
  next
    case False
    with rng have "v < 2 ^ 31" by (simp add: in_int32_def literal_value_def u_def v_def)
    then have "\<not> 2 ^ 31 \<le> v" by simp
    with False ne small show ?thesis
      by (simp add: ParseInt_alt u_def [symmetric] pu word_cmp literal_value_def v_def [symmetric])
  qed
qed

lemma ParseInt_range:
  assumes lit: "int_literal s" and rng: "\<not> in_int32 (literal_value s)"
  shows "ParseInt s =
    (if negative s then - (2 ^ 31) else 2 ^ 31 - 1, Some (rangeError ''ParseInt'' s))"
proof -
  define u where "u = unsigned_part s"
  define v where "v = dec_val 0 u"
  from lit have ne: "s \<noteq> []" by (rule int_literal_nonempty)
  from lit have une: "u \<noteq> []" and dg: "list_all is_digit u"
    by (simp_all add: int_literal_def u_def)
  show ?thesis
  proof (cases "v < 2 ^ 32")
    case small: True
    have pu: "ParseUint u = (of_nat v, None)"
      using ParseUint_ok [OF une dg] small by (simp add: u_def v_def)
    show ?thesis
    proof (cases "negative s")
      case True
      with rng have "2 ^ 31 < v" by (simp add: in_int32_def literal_value_def u_def v_def)
      with True ne small show ?thesis
        by (simp add: ParseInt_alt u_def [symmetric] pu word_cmp)
    next
      case False
      with rng have "2 ^ 31 \<le> v" by (simp add: in_int32_def literal_value_def u_def v_def)
      with False ne small show ?thesis
        by (simp add: ParseInt_alt u_def [symmetric] pu word_cmp)
    qed
  next
    case False
    have pu: "ParseUint u = (2 ^ 32 - 1, Some (rangeError ''ParseUint'' u))"
      using ParseUint_range [OF une dg] False by (simp add: u_def v_def)
    show ?thesis using ne
      by (simp add: ParseInt_alt u_def [symmetric] pu rangeError_def
          word_le_nat_alt word_less_nat_alt)
  qed
qed

lemma ParseInt_bad:
  assumes nl: "\<not> int_literal s"
  shows "ParseInt s = (0, Some (syntaxError ''ParseInt'' s)) \<or>
         ParseInt s =
           (if negative s then - (2 ^ 31) else 2 ^ 31 - 1, Some (rangeError ''ParseInt'' s))"
proof (cases "s = []")
  case True
  then show ?thesis by (simp add: ParseInt_alt)
next
  case ne: False
  define u where "u = unsigned_part s"
  from nl have "u = [] \<or> \<not> list_all is_digit u" by (auto simp: int_literal_def u_def)
  from ParseUint_bad [OF this] show ?thesis
  proof
    assume "ParseUint u = (0, Some (syntaxError ''ParseUint'' u))"
    then show ?thesis using ne
      by (simp add: ParseInt_alt u_def [symmetric] syntaxError_def)
  next
    assume "ParseUint u = (2 ^ 32 - 1, Some (rangeError ''ParseUint'' u))"
    then show ?thesis using ne
      by (simp add: ParseInt_alt u_def [symmetric] rangeError_def
          word_le_nat_alt word_less_nat_alt)
  qed
qed

lemma ParseInt_refusal:
  assumes nl: "\<not> int_literal s"
  shows "snd (ParseInt s) = Some \<lparr>Func = ''ParseInt'', Num = s, Err = refusal_kind s\<rparr>"
proof (cases "s = []")
  case True
  then show ?thesis
    by (simp add: ParseInt_alt refusal_kind_def int_literal_def unsigned_part_def syntaxError_def)
next
  case ne: False
  define u where "u = unsigned_part s"
  have z: "unat (0 :: 64 word) < 2 ^ 32" by simp
  show ?thesis
  proof (cases "u = []")
    case True
    then have "ParseUint u = (0, Some (syntaxError ''ParseUint'' u))"
      by (simp add: ParseUint_def)
    with True nl ne show ?thesis
      by (simp add: ParseInt_alt u_def [symmetric] refusal_kind_def syntaxError_def)
  next
    case une: False
    with nl have nd: "\<not> list_all is_digit u" by (simp add: int_literal_def u_def)
    show ?thesis
    proof (cases "dec_val 0 (takeWhile is_digit u) < 2 ^ 32")
      case True
      with loop_error_kind [OF nd z] have "parse_loop 0 u = (0, Some ErrSyntax)" by simp
      with une have "ParseUint u = (0, Some (syntaxError ''ParseUint'' u))"
        by (simp add: ParseUint_def syntaxError_def)
      with True nl ne show ?thesis
        by (simp add: ParseInt_alt u_def [symmetric] refusal_kind_def syntaxError_def)
    next
      case False
      with loop_error_kind [OF nd z] have "parse_loop 0 u = (2 ^ 32 - 1, Some ErrRange)" by simp
      with une have "ParseUint u = (2 ^ 32 - 1, Some (rangeError ''ParseUint'' u))"
        by (simp add: ParseUint_def rangeError_def)
      with False nl ne show ?thesis
        by (simp add: ParseInt_alt u_def [symmetric] refusal_kind_def rangeError_def
            word_le_nat_alt word_less_nat_alt)
    qed
  qed
qed

section \<open>The decimal text of an integer is a literal\<close>

declare digits.simps [simp del]

lemma digit_char_upt: "\<forall>d \<in> set [0 ..< 10]. is_digit (digit_char d) \<and> digit_val (digit_char d) = d"
  by code_simp

lemma digit_char_props:
  assumes "d < 10"
  shows "is_digit (digit_char d)" and "digit_val (digit_char d) = d"
proof -
  from assms have "d \<in> set [0 ..< 10]" by simp
  with digit_char_upt show "is_digit (digit_char d)" and "digit_val (digit_char d) = d"
    by blast+
qed

lemma dec_val_append: "dec_val a (xs @ ys) = dec_val (dec_val a xs) ys"
  by (induction xs arbitrary: a) simp_all

lemma digits_nonempty: "digits n \<noteq> []"
  by (subst digits.simps) simp

lemma digits_all: "list_all is_digit (digits n)"
proof (induction n rule: digits.induct)
  case (1 n)
  show ?case
  proof (cases "n < 10")
    case True
    then show ?thesis by (subst digits.simps) (simp add: digit_char_props)
  next
    case False
    with "1" have "list_all is_digit (digits (n div 10))" by simp
    moreover have "is_digit (digit_char (n mod 10))" by (simp add: digit_char_props)
    ultimately show ?thesis using False by (subst digits.simps) simp
  qed
qed

lemma dec_val_digits: "dec_val 0 (digits n) = n"
proof (induction n rule: digits.induct)
  case (1 n)
  show ?case
  proof (cases "n < 10")
    case True
    then show ?thesis by (subst digits.simps) (simp add: digit_char_props)
  next
    case False
    with "1" have "dec_val 0 (digits (n div 10)) = n div 10" by simp
    moreover have "digit_val (digit_char (n mod 10)) = n mod 10" by (simp add: digit_char_props)
    ultimately show ?thesis using False
      by (subst digits.simps) (simp add: dec_val_append)
  qed
qed

lemma is_digit_not_sign: "is_digit c \<Longrightarrow> c \<noteq> CHR ''+'' \<and> c \<noteq> CHR ''-''"
  by (auto simp: is_digit_def)

lemma digits_unsigned: "unsigned_part (digits n) = digits n" "\<not> negative (digits n)"
proof -
  obtain c cs where d: "digits n = c # cs"
    using digits_nonempty [of n] by (cases "digits n") auto
  from digits_all [of n] d have "is_digit c" by simp
  then have "c \<noteq> CHR ''+'' \<and> c \<noteq> CHR ''-''" by (rule is_digit_not_sign)
  then show "unsigned_part (digits n) = digits n" "\<not> negative (digits n)"
    by (simp_all add: d unsigned_part_def negative_def)
qed

lemma itoa_literal: "int_literal (itoa n)" "literal_value (itoa n) = n"
proof -
  show "int_literal (itoa n)"
    by (simp add: itoa_def int_literal_def digits_unsigned digits_nonempty digits_all)
      (simp add: unsigned_part_def digits_nonempty digits_all)
  show "literal_value (itoa n) = n"
    by (simp add: itoa_def literal_value_def digits_unsigned dec_val_digits)
      (simp add: unsigned_part_def negative_def dec_val_digits)
qed

lemma literal_not_keyword: "int_literal s \<Longrightarrow> s \<noteq> ''false'' \<and> s \<noteq> ''null''"
  by (auto simp: int_literal_def unsigned_part_def is_digit_def)

lemma decode_literal:
  assumes lit: "int_literal s"
  shows "UnmarshalJSON tf s =
    (if in_int32 (literal_value s) then (word_of_int (literal_value s), None)
     else (tf, Some (rangeError ''ParseInt'' s)))"
proof -
  from lit have nk: "s \<noteq> ''false''" "s \<noteq> ''null''" using literal_not_keyword by blast+
  show ?thesis
  proof (cases "in_int32 (literal_value s)")
    case True
    with ParseInt_ok [OF lit] nk show ?thesis by (simp add: UnmarshalJSON_def)
  next
    case False
    with ParseInt_range [OF lit] nk show ?thesis by (simp add: UnmarshalJSON_def)
  qed
qed

lemma decode_other:
  assumes nl: "\<not> int_literal s" and nk: "s \<noteq> ''false''" "s \<noteq> ''null''"
  shows "UnmarshalJSON tf s = (tf, Some (syntaxError ''ParseInt'' s)) \<or>
         UnmarshalJSON tf s = (tf, Some (rangeError ''ParseInt'' s))"
  using ParseInt_bad [OF nl] nk by (auto simp add: UnmarshalJSON_def)

lemma sint_int32:
  assumes "in_int32 k"
  shows "sint (word_of_int k :: 64 word) = k"
proof -
  from assms have "- (2 ^ 63) \<le> k" "k < 2 ^ 63" by (simp_all add: in_int32_def)
  then have "signed_take_bit 63 k = k" by (rule signed_take_bit_int_eq_self)
  then show ?thesis by (simp add: sint_sbintrunc')
qed

lemma quote_not_digit: "\<not> is_digit (CHR 0x22)"
  by (simp add: is_digit_def)

lemma decode_quoted:
  "UnmarshalJSON tf (quoted ds) = (tf, Some (syntaxError ''ParseInt'' (quoted ds)))"
proof -
  define q where "q = quoted ds"
  have u: "unsigned_part q = q" and ne: "q \<noteq> []" and nk: "q \<noteq> ''false''" "q \<noteq> ''null''"
    by (simp_all add: unsigned_part_def quoted_def q_def)
  have "parse_loop 0 q = (0, Some ErrSyntax)"
    unfolding q_def quoted_def using quote_not_digit by (rule nondigit_step)
  then have "ParseUint q = (0, Some (syntaxError ''ParseUint'' q))"
    using ne by (simp add: ParseUint_def syntaxError_def)
  then have "ParseInt q = (0, Some (syntaxError ''ParseInt'' q))"
    using ne by (simp add: ParseInt_alt u syntaxError_def)
  then show ?thesis
    using nk by (simp add: UnmarshalJSON_def q_def [symmetric])
qed

lemma decode_success:
  assumes ok: "UnmarshalJSON tf d = (v, None)"
  shows "in_int32 (sint v)"
proof (cases "d = ''false'' \<or> d = ''null''")
  case True
  with ok have "v = 0" by (auto simp add: UnmarshalJSON_def)
  then show ?thesis by (simp add: in_int32_def)
next
  case nk: False
  then have nk': "d \<noteq> ''false''" "d \<noteq> ''null''" by simp_all
  have lit: "int_literal d"
  proof (rule ccontr)
    assume "\<not> int_literal d"
    from decode_other [OF this nk', of tf] ok show False by auto
  qed
  from decode_literal [OF lit, of tf] ok
  have r: "in_int32 (literal_value d)" and v: "v = word_of_int (literal_value d)"
    by (auto split: if_splits)
  from r show ?thesis unfolding v by (simp add: sint_int32)
qed

text \<open>The decoder on a program state computes \<open>decode_token\<close>, and agrees with the decoder on values.\<close>

lemma ParseInt_decode_token:
  assumes nk: "s \<noteq> ''false''" "s \<noteq> ''null''"
  shows "case decode_token s of
           Inr v \<Rightarrow> ParseInt s = (v, None)
         | Inl e \<Rightarrow> snd (ParseInt s) = Some e"
proof (cases "int_literal s")
  case lit: True
  show ?thesis
  proof (cases "in_int32 (literal_value s)")
    case True
    with ParseInt_ok [OF lit] nk lit show ?thesis
      by (simp add: decode_token_def parseable_int32_def)
  next
    case False
    with ParseInt_range [OF lit] nk lit show ?thesis
      by (simp add: decode_token_def parseable_int32_def refusal_kind_def rangeError_def)
  qed
next
  case False
  with ParseInt_refusal [OF False] nk show ?thesis
    by (simp add: decode_token_def parseable_int32_def)
qed

lemma UnmarshalJSON_at_decode_token:
  "UnmarshalJSON_at tf s \<sigma> =
     (case decode_token s of
        Inr v \<Rightarrow> (\<sigma>\<lparr>timeframes := (timeframes \<sigma>)(tf := v)\<rparr>, None)
      | Inl e \<Rightarrow> (\<sigma>, Some e))"
proof (cases "s = ''false'' \<or> s = ''null''")
  case True
  then show ?thesis by (auto simp add: UnmarshalJSON_at_def decode_token_def)
next
  case False
  then have nk: "s \<noteq> ''false''" "s \<noteq> ''null''" by simp_all
  from ParseInt_decode_token [OF nk] False show ?thesis
    by (cases "decode_token s"; cases "ParseInt s")
      (auto simp add: UnmarshalJSON_at_def split: option.splits)
qed

lemma UnmarshalJSON_at_value:
  "UnmarshalJSON_at tf s \<sigma> =
     (\<sigma>\<lparr>timeframes := (timeframes \<sigma>)(tf := fst (UnmarshalJSON (timeframes \<sigma> tf) s))\<rparr>,
      snd (UnmarshalJSON (timeframes \<sigma> tf) s))"
  by (auto simp add: UnmarshalJSON_at_def UnmarshalJSON_def split: prod.splits option.splits)

section \<open>The decoder: the claims\<close>

text \<open>
  Claim C1. Decoding succeeds exactly when the token is the literal \<open>false\<close>, the literal
  \<open>null\<close>, or a parseable base-10 signed integer: an optional sign, one or more ASCII
  digits, and a value in the 32-bit signed range. For every other token the decoder
  returns an error of \<open>ParseInt\<close> whose \<open>Num\<close> field is the raw text of the token.
\<close>

theorem UnmarshalJSON_accepts_iff:
  "(snd (UnmarshalJSON tf s) = None \<longleftrightarrow> s = ''false'' \<or> s = ''null'' \<or> parseable_int32 s) \<and>
   (\<not> (s = ''false'' \<or> s = ''null'' \<or> parseable_int32 s) \<longrightarrow>
      (\<exists>e. snd (UnmarshalJSON tf s) = Some \<lparr>Func = ''ParseInt'', Num = s, Err = e\<rparr>))"
proof (cases "s = ''false'' \<or> s = ''null''")
  case True
  then show ?thesis by (auto simp add: UnmarshalJSON_def)
next
  case nk: False
  show ?thesis
  proof (cases "int_literal s")
    case True
    from decode_literal [OF True, of tf] nk show ?thesis
      by (simp add: parseable_int32_def True rangeError_def)
  next
    case False
    from nk have "s \<noteq> ''false''" "s \<noteq> ''null''" by simp_all
    from decode_other [OF False this, of tf] nk False show ?thesis
      by (auto simp add: parseable_int32_def rangeError_def syntaxError_def)
  qed
qed

theorem UnmarshalJSON_accepts_iff_witness:
  "snd (UnmarshalJSON 7 ''abc'') \<noteq> None \<and>
   (\<exists>e. snd (UnmarshalJSON 7 ''abc'') = Some \<lparr>Func = ''ParseInt'', Num = ''abc'', Err = e\<rparr>) \<and>
   (\<exists>e. snd (UnmarshalJSON 7 ''1.5'') = Some \<lparr>Func = ''ParseInt'', Num = ''1.5'', Err = e\<rparr>) \<and>
   (\<exists>e. snd (UnmarshalJSON 7 '''') = Some \<lparr>Func = ''ParseInt'', Num = '''', Err = e\<rparr>) \<and>
   snd (UnmarshalJSON 7 ''30'') = None"
proof -
  have a: "\<not> parseable_int32 ''abc''" and b: "\<not> parseable_int32 ''1.5''"
    and c: "\<not> parseable_int32 ''''" and d: "parseable_int32 ''30''"
    by (simp_all add: parseable_int32_def int_literal_def unsigned_part_def is_digit_def
        literal_value_def negative_def in_int32_def digit_val_def)
  show ?thesis
    using UnmarshalJSON_accepts_iff [of 7 "''abc''"] UnmarshalJSON_accepts_iff [of 7 "''1.5''"]
      UnmarshalJSON_accepts_iff [of 7 "''''"] UnmarshalJSON_accepts_iff [of 7 "''30''"] a b c d
    by simp
qed

text \<open>
  Claim C2. For the token \<open>false\<close>, and likewise for the token \<open>null\<close>, the decoder
  succeeds and stores 0, whatever the receiver held before.
\<close>

theorem UnmarshalJSON_false_null:
  "UnmarshalJSON tf ''false'' = (0, None) \<and> UnmarshalJSON tf ''null'' = (0, None)"
  by (simp add: UnmarshalJSON_def)

text \<open>
  Claim C3. For every integer \<open>n\<close> in the 32-bit signed range, decoding the base-10 text of
  \<open>n\<close> succeeds and stores exactly \<open>n\<close>: the stored word is \<open>word_of_int n\<close> and reads
  back as \<open>n\<close>.
\<close>

theorem UnmarshalJSON_itoa:
  "in_int32 n \<Longrightarrow>
   UnmarshalJSON tf (itoa n) = (word_of_int n, None) \<and> sint (word_of_int n :: 64 word) = n"
  using decode_literal [of "itoa n" tf] by (simp add: itoa_literal sint_int32)

theorem UnmarshalJSON_itoa_witness:
  "itoa (- 5) = ''-5'' \<and> UnmarshalJSON 7 (itoa (- 5)) = (- 5, None) \<and> sint (- 5 :: 64 word) = - 5 \<and>
   itoa 2147483647 = ''2147483647'' \<and> UnmarshalJSON 7 (itoa 2147483647) = (2147483647, None) \<and>
   UnmarshalJSON 7 (itoa 0) = (0, None)"
proof -
  have i: "in_int32 (- 5)" "in_int32 2147483647" "in_int32 0" by (simp_all add: in_int32_def)
  have s: "itoa (- 5) = ''-5''" "itoa 2147483647 = ''2147483647''"
    by (simp_all add: itoa_def digits.simps digit_char_def)
  show ?thesis
    using UnmarshalJSON_itoa [OF i(1), of 7] UnmarshalJSON_itoa [OF i(2), of 7]
      UnmarshalJSON_itoa [OF i(3), of 7] s
    by simp
qed

text \<open>
  Claim C4, as amended. The decoder has no handling of quotes: for every text (so for
  every sequence of ASCII digits optionally prefixed with \<open>-\<close>), the token made of that
  text wrapped in double quotes is refused with a syntax error that carries the quoted
  token, and the receiver keeps its value. A quoted digit string is not equivalent to the
  unquoted one.
\<close>

theorem UnmarshalJSON_quoted:
  "UnmarshalJSON tf (quoted ds) = (tf, Some (syntaxError ''ParseInt'' (quoted ds))) \<and>
   snd (UnmarshalJSON tf (quoted ds)) \<noteq> None"
  by (simp add: decode_quoted)

text \<open>
  The claim as first stated, that the quoted token decodes to the same integer as the
  unquoted one, fails at the token \<open>30\<close> in quotes.
\<close>

theorem quoted_counterexample:
  "UnmarshalJSON 7 ''30'' = (30, None) \<and>
   UnmarshalJSON 7 (quoted ''30'') = (7, Some (syntaxError ''ParseInt'' (quoted ''30''))) \<and>
   UnmarshalJSON 7 (quoted ''30'') \<noteq> UnmarshalJSON 7 ''30''"
  by code_simp

text \<open>
  Claim C5, as amended. The decoder validates the range and nothing else: an integer
  literal whose value lies in the 32-bit signed range decodes to that value unchanged,
  negative values included; a literal whose value lies outside the range is refused with
  a range error that carries the text of the literal, and the receiver keeps its value.
\<close>

theorem UnmarshalJSON_literal:
  "int_literal s \<Longrightarrow>
   UnmarshalJSON tf s =
    (if in_int32 (literal_value s) then (word_of_int (literal_value s), None)
     else (tf, Some (rangeError ''ParseInt'' s)))"
proof -
  assume lit: "int_literal s"
  then have nk: "s \<noteq> ''false''" "s \<noteq> ''null''" using literal_not_keyword by blast+
  show ?thesis
  proof (cases "in_int32 (literal_value s)")
    case True
    with ParseInt_ok [OF lit] nk show ?thesis by (simp add: UnmarshalJSON_def)
  next
    case False
    with ParseInt_range [OF lit] nk show ?thesis by (simp add: UnmarshalJSON_def)
  qed
qed

theorem UnmarshalJSON_literal_witness:
  "UnmarshalJSON 7 ''-5'' = (- 5, None) \<and>
   UnmarshalJSON 7 ''-2147483648'' = (- 2147483648, None) \<and>
   UnmarshalJSON 7 ''99999999999999999999'' =
     (7, Some (rangeError ''ParseInt'' ''99999999999999999999''))"
proof -
  have l: "int_literal ''-5''" "int_literal ''-2147483648''" "int_literal ''99999999999999999999''"
    by (simp_all add: int_literal_def unsigned_part_def is_digit_def)
  have v: "literal_value ''-5'' = - 5" "literal_value ''-2147483648'' = - 2147483648"
    "literal_value ''99999999999999999999'' = 99999999999999999999"
    by (simp_all add: literal_value_def unsigned_part_def negative_def digit_val_def)
  show ?thesis
    using UnmarshalJSON_literal [OF l(1), of 7] UnmarshalJSON_literal [OF l(2), of 7]
      UnmarshalJSON_literal [OF l(3), of 7]
    by (simp add: v in_int32_def)
qed

text \<open>
  The claim as first stated, that integers outside the 32-bit signed range pass through
  unchanged, fails at \<open>2147483648\<close> and at \<open>-2147483649\<close>.
\<close>

theorem out_of_range_counterexample:
  "int_literal ''2147483648'' \<and> literal_value ''2147483648'' = 2147483648 \<and>
   UnmarshalJSON 7 ''2147483648'' = (7, Some (rangeError ''ParseInt'' ''2147483648'')) \<and>
   UnmarshalJSON 7 ''-2147483649'' = (7, Some (rangeError ''ParseInt'' ''-2147483649''))"
proof -
  have "int_literal ''2147483648''"
    by (simp add: int_literal_def unsigned_part_def is_digit_def)
  moreover have "literal_value ''2147483648'' = 2147483648"
    by (simp add: literal_value_def unsigned_part_def negative_def digit_val_def)
  moreover have "UnmarshalJSON 7 ''2147483648'' = (7, Some (rangeError ''ParseInt'' ''2147483648''))"
    by code_simp
  moreover have "UnmarshalJSON 7 ''-2147483649'' = (7, Some (rangeError ''ParseInt'' ''-2147483649''))"
    by code_simp
  ultimately show ?thesis by blast
qed

text \<open>
  Claim C6. Round trip: when a token decodes to \<open>v\<close>, re-encoding \<open>v\<close> gives a plain
  integer token (the decimal text of \<open>v\<close>), and decoding that token stores \<open>v\<close> again,
  whatever the receiver held before.
\<close>

theorem reencode_roundtrip:
  "UnmarshalJSON tf d = (v, None) \<Longrightarrow>
   UnmarshalJSON tf' (itoa (sint v)) = (v, None) \<and> int_literal (itoa (sint v))"
proof -
  assume ok: "UnmarshalJSON tf d = (v, None)"
  then have r: "in_int32 (sint v)" by (rule decode_success)
  from decode_literal [of "itoa (sint v)" tf'] r
  show "UnmarshalJSON tf' (itoa (sint v)) = (v, None) \<and> int_literal (itoa (sint v))"
    by (simp add: itoa_literal)
qed

theorem reencode_roundtrip_witness:
  "UnmarshalJSON 0 ''+30'' = (30, None) \<and> itoa (sint (30 :: 64 word)) = ''30'' \<and>
   UnmarshalJSON 9 (itoa (sint (30 :: 64 word))) = (30, None) \<and>
   UnmarshalJSON 9 (itoa (sint (0 :: 64 word))) = (0, None)"
proof -
  have h: "UnmarshalJSON 0 ''+30'' = (30, None)" by code_simp
  have f: "UnmarshalJSON 0 ''false'' = (0, None)" by (simp add: UnmarshalJSON_def)
  have s: "itoa (sint (30 :: 64 word)) = ''30''"
    by (simp add: itoa_def digits.simps digit_char_def)
  from reencode_roundtrip [OF h, of 9] reencode_roundtrip [OF f, of 9] h s
  show ?thesis by simp
qed

text \<open>
  Claim C7. When the decoder returns an error, the value stored in the receiver is the one
  it held before the call.
\<close>

theorem error_keeps_receiver:
  "snd (UnmarshalJSON tf d) \<noteq> None \<Longrightarrow> fst (UnmarshalJSON tf d) = tf"
  by (auto simp add: UnmarshalJSON_def split: prod.splits option.splits if_splits)

theorem error_keeps_receiver_witness:
  "snd (UnmarshalJSON 7 ''abc'') \<noteq> None \<and> fst (UnmarshalJSON 7 ''abc'') = 7"
proof -
  have h: "snd (UnmarshalJSON 7 ''abc'') \<noteq> None" by code_simp
  from error_keeps_receiver [OF h] h show ?thesis by simp
qed

text \<open>
  Claim C8. The decoder is a pure, deterministic function of the raw token text. Its
  outcome is \<open>decode_token\<close> of the text: two calls on equal texts, from any two program
  states and with any two receivers, return the same error or store the same integer.
  The call depends on nothing else of the state, and it changes nothing but the
  receiver's cell: \<open>others\<close> and every other cell are as before, and on an error the
  whole state is.
\<close>

theorem decode_pure_function_of_text:
  "d1 = d2 \<Longrightarrow>
   (case decode_token d1 of
      Inr v \<Rightarrow>
        UnmarshalJSON_at tf1 d1 \<sigma>1 = (\<sigma>1\<lparr>timeframes := (timeframes \<sigma>1)(tf1 := v)\<rparr>, None) \<and>
        UnmarshalJSON_at tf2 d2 \<sigma>2 = (\<sigma>2\<lparr>timeframes := (timeframes \<sigma>2)(tf2 := v)\<rparr>, None)
    | Inl e \<Rightarrow>
        UnmarshalJSON_at tf1 d1 \<sigma>1 = (\<sigma>1, Some e) \<and>
        UnmarshalJSON_at tf2 d2 \<sigma>2 = (\<sigma>2, Some e)) \<and>
   snd (UnmarshalJSON_at tf1 d1 \<sigma>1) = snd (UnmarshalJSON_at tf2 d2 \<sigma>2) \<and>
   (snd (UnmarshalJSON_at tf1 d1 \<sigma>1) = None \<longrightarrow>
      timeframes (fst (UnmarshalJSON_at tf1 d1 \<sigma>1)) tf1 =
      timeframes (fst (UnmarshalJSON_at tf2 d2 \<sigma>2)) tf2) \<and>
   others (fst (UnmarshalJSON_at tf1 d1 \<sigma>1)) = others \<sigma>1 \<and>
   (\<forall>a. a \<noteq> tf1 \<longrightarrow> timeframes (fst (UnmarshalJSON_at tf1 d1 \<sigma>1)) a = timeframes \<sigma>1 a)"
proof -
  assume eq: "d1 = d2"
  show ?thesis
  proof (cases "decode_token d1")
    case (Inl e)
    then have a: "UnmarshalJSON_at tf1 d1 \<sigma>1 = (\<sigma>1, Some e)"
      and b: "UnmarshalJSON_at tf2 d2 \<sigma>2 = (\<sigma>2, Some e)"
      unfolding eq [symmetric] by (simp_all add: UnmarshalJSON_at_decode_token)
    show ?thesis unfolding a b using Inl by simp
  next
    case (Inr v)
    then have a: "UnmarshalJSON_at tf1 d1 \<sigma>1 = (\<sigma>1\<lparr>timeframes := (timeframes \<sigma>1)(tf1 := v)\<rparr>, None)"
      and b: "UnmarshalJSON_at tf2 d2 \<sigma>2 = (\<sigma>2\<lparr>timeframes := (timeframes \<sigma>2)(tf2 := v)\<rparr>, None)"
      unfolding eq [symmetric] by (simp_all add: UnmarshalJSON_at_decode_token)
    show ?thesis unfolding a b using Inr by simp
  qed
qed

theorem decode_pure_function_of_text_witness:
  "UnmarshalJSON_at 0 ''30'' \<lparr>timeframes = (\<lambda>a. 1), others = ''x''\<rparr> =
     (\<lparr>timeframes = (\<lambda>a. 1)(0 := 30), others = ''x''\<rparr>, None) \<and>
   UnmarshalJSON_at 5 ''30'' \<lparr>timeframes = (\<lambda>a. 2), others = ''y''\<rparr> =
     (\<lparr>timeframes = (\<lambda>a. 2)(5 := 30), others = ''y''\<rparr>, None) \<and>
   UnmarshalJSON_at 0 ''1.5'' \<lparr>timeframes = (\<lambda>a. 1), others = ''x''\<rparr> =
     (\<lparr>timeframes = (\<lambda>a. 1), others = ''x''\<rparr>,
      Some \<lparr>Func = ''ParseInt'', Num = ''1.5'', Err = ErrSyntax\<rparr>) \<and>
   UnmarshalJSON_at 5 ''1.5'' \<lparr>timeframes = (\<lambda>a. 2), others = ''y''\<rparr> =
     (\<lparr>timeframes = (\<lambda>a. 2), others = ''y''\<rparr>,
      Some \<lparr>Func = ''ParseInt'', Num = ''1.5'', Err = ErrSyntax\<rparr>)"
proof -
  have a: "decode_token ''30'' = Inr 30"
    by (simp add: decode_token_def parseable_int32_def int_literal_def unsigned_part_def
        is_digit_def literal_value_def negative_def in_int32_def digit_val_def)
  have b: "decode_token ''1.5'' = Inl \<lparr>Func = ''ParseInt'', Num = ''1.5'', Err = ErrSyntax\<rparr>"
    by (simp add: decode_token_def parseable_int32_def int_literal_def unsigned_part_def
        is_digit_def refusal_kind_def digit_val_def)
  from decode_pure_function_of_text
      [of "''30''" "''30''" 0 "\<lparr>timeframes = (\<lambda>a. 1), others = ''x''\<rparr>"
        5 "\<lparr>timeframes = (\<lambda>a. 2), others = ''y''\<rparr>"]
    decode_pure_function_of_text
      [of "''1.5''" "''1.5''" 0 "\<lparr>timeframes = (\<lambda>a. 1), others = ''x''\<rparr>"
        5 "\<lparr>timeframes = (\<lambda>a. 2), others = ''y''\<rparr>"]
  show ?thesis by (simp add: a b)
qed

text \<open>
  Claim C10, as amended. The decoder accepts a leading plus sign: for every integer \<open>n\<close>
  with \<open>0 \<le> n < 2 ^ 31\<close>, the token \<open>+\<close> followed by the decimal text of \<open>n\<close> decodes
  to \<open>n\<close>.
\<close>

theorem UnmarshalJSON_plus:
  "0 \<le> n \<Longrightarrow> n < 2 ^ 31 \<Longrightarrow>
   UnmarshalJSON tf (CHR ''+'' # itoa n) = (word_of_int n, None) \<and>
   sint (word_of_int n :: 64 word) = n"
proof -
  assume n: "0 \<le> n" "n < 2 ^ 31"
  define s where "s = CHR ''+'' # itoa n"
  from n have r: "in_int32 n" by (simp add: in_int32_def)
  from n have i: "itoa n = digits (nat n)" by (simp add: itoa_def)
  have u: "unsigned_part s = digits (nat n)" and ng: "\<not> negative s"
    by (simp_all add: s_def unsigned_part_def negative_def i)
  have lit: "int_literal s"
    by (simp add: int_literal_def u digits_nonempty digits_all)
  have v: "literal_value s = n"
    using n by (simp add: literal_value_def u ng dec_val_digits)
  from decode_literal [OF lit, of tf] r
  show "UnmarshalJSON tf (CHR ''+'' # itoa n) = (word_of_int n, None) \<and>
    sint (word_of_int n :: 64 word) = n"
    by (simp add: v s_def [symmetric] sint_int32)
qed

theorem UnmarshalJSON_plus_witness:
  "itoa 30 = ''30'' \<and> UnmarshalJSON 7 (CHR ''+'' # itoa 30) = (30, None) \<and>
   UnmarshalJSON 7 (CHR ''+'' # itoa 2147483647) = (2147483647, None)"
proof -
  have s: "itoa 30 = ''30''" by (simp add: itoa_def digits.simps digit_char_def)
  from UnmarshalJSON_plus [of 30 7] UnmarshalJSON_plus [of 2147483647 7] s
  show ?thesis by simp
qed

text \<open>
  The claim as first stated ranges over every \<open>n\<close> of the 32-bit signed range. It fails
  at \<open>n = -5\<close>: the token \<open>+-5\<close> is a syntax error, and the token \<open>+5\<close>, made of the
  digits alone, decodes to 5.
\<close>

theorem plus_sign_counterexample:
  "in_int32 (- 5) \<and> itoa (- 5) = ''-5'' \<and>
   UnmarshalJSON 7 (CHR ''+'' # itoa (- 5)) = (7, Some (syntaxError ''ParseInt'' ''+-5'')) \<and>
   digits (nat \<bar>- 5\<bar>) = ''5'' \<and>
   UnmarshalJSON 7 (CHR ''+'' # digits (nat \<bar>- 5\<bar>)) = (5, None) \<and>
   sint (5 :: 64 word) \<noteq> - 5"
proof -
  have "in_int32 (- 5)" by (simp add: in_int32_def)
  moreover have i: "itoa (- 5) = ''-5''" by (simp add: itoa_def digits.simps digit_char_def)
  moreover have "UnmarshalJSON 7 ''+-5'' = (7, Some (syntaxError ''ParseInt'' ''+-5''))"
    by code_simp
  moreover have d: "digits (nat \<bar>- 5\<bar>) = ''5''" by (simp add: digits.simps digit_char_def)
  moreover have "UnmarshalJSON 7 ''+5'' = (5, None)" by code_simp
  moreover have "sint (5 :: 64 word) \<noteq> - 5" by simp
  ultimately show ?thesis by (simp only: i d) simp
qed

section \<open>The client methods: the claim\<close>

text \<open>
  Claim C9, as amended. Every monitor client method propagates the error produced by the
  \<open>doJSONRequest\<close> transport unchanged to its caller, with no retry or recovery: it
  returns the error of the transport call, and the outside state that call leaves.
  (\<open>UpdateMonitor\<close> reaches the transport when \<open>monitor\<close> and \<open>monitor.ID\<close> are not
  \<open>nil\<close>; on a \<open>nil\<close> it panics before any request, so that no transport error exists.)
  \<open>CreateMonitor\<close> and \<open>GetMonitor\<close> return a \<open>nil\<close> pointer exactly when the transport
  returns an error. \<open>GetMonitors\<close>, \<open>GetMonitorsByName\<close> and \<open>GetMonitorsByTags\<close> return
  a \<open>nil\<close> slice whenever the transport returns an error, and otherwise the slice the
  transport stored, which may be \<open>nil\<close> too; the last two return \<open>nil\<close> with the error of
  \<open>url.ParseQuery\<close>, and make no request, when the query text does not parse.
\<close>

theorem client_methods_propagate:
  "(case doJSONRequest_Monitor client ''POST'' ''/v1/monitor'' monitor zero_Monitor w of
      ((err, out), w') \<Rightarrow>
        CreateMonitor client monitor w = ((if err = None then Some out else None, err), w')) \<and>
   (case monitor of
      None \<Rightarrow> UpdateMonitor client monitor w = None
    | Some m \<Rightarrow>
       (case Monitor.ID m of
          None \<Rightarrow> UpdateMonitor client monitor w = None
        | Some i \<Rightarrow>
           UpdateMonitor client monitor w =
             Some (doJSONRequest_nil client ''PUT'' (''/v1/monitor/'' @ itoa (sint i)) monitor w))) \<and>
   (case doJSONRequest_Monitor client ''GET'' (''/v1/monitor/'' @ itoa (sint j)) None zero_Monitor w of
      ((err, out), w') \<Rightarrow>
        GetMonitor client j w = ((if err = None then Some out else None, err), w')) \<and>
   (case doJSONRequest_Monitors client ''GET'' ''/v1/monitor'' None None w of
      ((err, out), w') \<Rightarrow>
        GetMonitors client w = ((if err = None then out else None, err), w')) \<and>
   (case ParseQuery url (''name='' @ name) of
      Inl e \<Rightarrow> GetMonitorsByName client url name w = ((None, Some e), w)
    | Inr q \<Rightarrow>
       (case doJSONRequest_Monitors client ''GET'' (''/v1/monitor?'' @ Encode url q) None None w of
          ((err, out), w') \<Rightarrow>
            GetMonitorsByName client url name w = ((if err = None then out else None, err), w'))) \<and>
   (case ParseQuery url (''monitor_tags='' @ Join tags '','') of
      Inl e \<Rightarrow> GetMonitorsByTags client url tags w = ((None, Some e), w)
    | Inr q \<Rightarrow>
       (case doJSONRequest_Monitors client ''GET'' (''/v1/monitor?'' @ Encode url q) None None w of
          ((err, out), w') \<Rightarrow>
            GetMonitorsByTags client url tags w = ((if err = None then out else None, err), w'))) \<and>
   DeleteMonitor client j w =
     doJSONRequest_nil client ''DELETE'' (''/v1/monitor/'' @ itoa (sint j)) None w \<and>
   MuteMonitors client w = doJSONRequest_nil client ''POST'' ''/v1/monitor/mute_all'' None w \<and>
   UnmuteMonitors client w = doJSONRequest_nil client ''POST'' ''/v1/monitor/unmute_all'' None w \<and>
   MuteMonitor client j w =
     doJSONRequest_nil client ''POST'' (''/v1/monitor/'' @ itoa (sint j) @ ''/mute'') None w \<and>
   UnmuteMonitor client j w =
     doJSONRequest_nil client ''POST'' (''/v1/monitor/'' @ itoa (sint j) @ ''/unmute'') None w"
proof -
  have create: "case doJSONRequest_Monitor client ''POST'' ''/v1/monitor'' monitor zero_Monitor w of
      ((err, out), w') \<Rightarrow>
        CreateMonitor client monitor w = ((if err = None then Some out else None, err), w')"
    by (auto simp add: CreateMonitor_def split: prod.splits)
  have update: "case monitor of
      None \<Rightarrow> UpdateMonitor client monitor w = None
    | Some m \<Rightarrow>
       (case Monitor.ID m of
          None \<Rightarrow> UpdateMonitor client monitor w = None
        | Some i \<Rightarrow>
           UpdateMonitor client monitor w =
             Some (doJSONRequest_nil client ''PUT'' (''/v1/monitor/'' @ itoa (sint i)) monitor w))"
    by (simp add: UpdateMonitor_def split: option.splits)
  have get: "case doJSONRequest_Monitor client ''GET'' (''/v1/monitor/'' @ itoa (sint j)) None zero_Monitor w of
      ((err, out), w') \<Rightarrow>
        GetMonitor client j w = ((if err = None then Some out else None, err), w')"
    by (auto simp add: GetMonitor_def split: prod.splits)
  have getall: "case doJSONRequest_Monitors client ''GET'' ''/v1/monitor'' None None w of
      ((err, out), w') \<Rightarrow>
        GetMonitors client w = ((if err = None then out else None, err), w')"
    by (auto simp add: GetMonitors_def split: prod.splits)
  have byname: "case ParseQuery url (''name='' @ name) of
      Inl e \<Rightarrow> GetMonitorsByName client url name w = ((None, Some e), w)
    | Inr q \<Rightarrow>
       (case doJSONRequest_Monitors client ''GET'' (''/v1/monitor?'' @ Encode url q) None None w of
          ((err, out), w') \<Rightarrow>
            GetMonitorsByName client url name w = ((if err = None then out else None, err), w'))"
    by (auto simp add: GetMonitorsByName_def split: prod.splits sum.splits)
  have bytags: "case ParseQuery url (''monitor_tags='' @ Join tags '','') of
      Inl e \<Rightarrow> GetMonitorsByTags client url tags w = ((None, Some e), w)
    | Inr q \<Rightarrow>
       (case doJSONRequest_Monitors client ''GET'' (''/v1/monitor?'' @ Encode url q) None None w of
          ((err, out), w') \<Rightarrow>
            GetMonitorsByTags client url tags w = ((if err = None then out else None, err), w'))"
    by (auto simp add: GetMonitorsByTags_def split: prod.splits sum.splits)
  have rest: "DeleteMonitor client j w =
     doJSONRequest_nil client ''DELETE'' (''/v1/monitor/'' @ itoa (sint j)) None w"
    "MuteMonitors client w = doJSONRequest_nil client ''POST'' ''/v1/monitor/mute_all'' None w"
    "UnmuteMonitors client w = doJSONRequest_nil client ''POST'' ''/v1/monitor/unmute_all'' None w"
    "MuteMonitor client j w =
     doJSONRequest_nil client ''POST'' (''/v1/monitor/'' @ itoa (sint j) @ ''/mute'') None w"
    "UnmuteMonitor client j w =
     doJSONRequest_nil client ''POST'' (''/v1/monitor/'' @ itoa (sint j) @ ''/unmute'') None w"
    by (simp_all add: DeleteMonitor_def MuteMonitors_def UnmuteMonitors_def MuteMonitor_def
        UnmuteMonitor_def)
  from create update get getall byname bytags rest show ?thesis by blast
qed

theorem client_methods_propagate_witness:
  "CreateMonitor failing_client (Some (zero_Monitor\<lparr>ID := Some 42\<rparr>)) 0 = ((None, Some ''503''), 1) \<and>
   UpdateMonitor failing_client (Some (zero_Monitor\<lparr>ID := Some 42\<rparr>)) 0 = Some (Some ''503'', 1) \<and>
   UpdateMonitor failing_client (Some zero_Monitor) 0 = None \<and>
   UpdateMonitor failing_client None 0 = None \<and>
   GetMonitor failing_client 42 0 = ((None, Some ''503''), 1) \<and>
   GetMonitors failing_client 0 = ((None, Some ''503''), 1) \<and>
   GetMonitorsByName failing_client url_stub ''cpu'' 0 = ((None, Some ''503''), 1) \<and>
   GetMonitorsByTags failing_client url_stub [''a'', ''b''] 0 = ((None, Some ''503''), 1) \<and>
   DeleteMonitor failing_client 42 0 = (Some ''503'', 1) \<and>
   MuteMonitors failing_client 0 = (Some ''503'', 1) \<and>
   UnmuteMonitors failing_client 0 = (Some ''503'', 1) \<and>
   MuteMonitor failing_client 42 0 = (Some ''503'', 1) \<and>
   UnmuteMonitor failing_client 42 0 = (Some ''503'', 1) \<and>
   fst (fst (CreateMonitor null_client None 0)) = Some zero_Monitor"
proof -
  from client_methods_propagate
    [of failing_client "Some (zero_Monitor\<lparr>ID := Some 42\<rparr>)" 0 42 url_stub "''cpu''" "[''a'', ''b'']"]
    client_methods_propagate
    [of failing_client "Some zero_Monitor" 0 42 url_stub "''cpu''" "[''a'', ''b'']"]
    client_methods_propagate
    [of failing_client None 0 42 url_stub "''cpu''" "[''a'', ''b'']"]
    client_methods_propagate
    [of null_client None 0 42 url_stub "''cpu''" "[''a'', ''b'']"]
  show ?thesis by (simp add: failing_client_def null_client_def url_stub_def zero_Monitor_def)
qed

text \<open>
  The claim as first stated, that a \<open>nil\<close> result is returned exactly when the transport
  returns an error, fails for the methods that return a slice: \<open>GetMonitors\<close> returns
  \<open>nil\<close> with no error when the transport succeeds and stores nothing, and
  \<open>GetMonitorsByName\<close> returns \<open>nil\<close> for the name \<open>%zz\<close> without any request made.
\<close>

theorem nil_result_counterexample:
  "doJSONRequest_Monitors null_client ''GET'' ''/v1/monitor'' None None 0 = ((None, None), 1) \<and>
   GetMonitors null_client 0 = ((None, None), 1) \<and>
   GetMonitorsByName failing_client url_stub ''%zz'' 0 = ((None, Some ''invalid URL escape''), 0)"
  by (simp add: GetMonitors_def GetMonitorsByName_def null_client_def failing_client_def url_stub_def)

end
